theory Spec2Isabelle
  imports Main "HOL-Library.Word"
begin

section \<open>JavaScript strings\<close>

text \<open>
  A JavaScript string is a sequence of UTF-16 code units. The regular expressions of
  \<^verbatim>\<open>script.js\<close> carry no \<^verbatim>\<open>u\<close> flag, so \<^verbatim>\<open>.\<close> consumes one code unit, and
  \<^verbatim>\<open>startsWith\<close>, \<^verbatim>\<open>substring\<close>, \<^verbatim>\<open>split\<close> all count code units.
  \<open>js\<close> embeds an ASCII literal of the source.
\<close>

type_synonym jschar = "16 word"
type_synonym jsstring = "jschar list"

definition js :: "string \<Rightarrow> jsstring" where
  "js = map (\<lambda>c. of_nat (of_char c))"

abbreviation star :: jschar where "star \<equiv> 0x2A"
abbreviation nl :: jschar where "nl \<equiv> 0x0A"

text \<open>The ECMAScript line terminators: LF, CR, LS, PS. The pattern \<^verbatim>\<open>.\<close> matches every
  code unit but these.\<close>

definition is_line_terminator :: "jschar \<Rightarrow> bool" where
  "is_line_terminator c \<longleftrightarrow> c = 0x0A \<or> c = 0x0D \<or> c = 0x2028 \<or> c = 0x2029"

text \<open>What \<^verbatim>\<open>String.prototype.trim\<close> strips: the ECMAScript WhiteSpace code points
  (TAB, VT, FF, ZWNBSP and the Unicode category Zs) and the line terminators.\<close>

definition is_js_space :: "jschar \<Rightarrow> bool" where
  "is_js_space c \<longleftrightarrow>
     c = 0x09 \<or> c = 0x0B \<or> c = 0x0C \<or> c = 0x20 \<or> c = 0xA0 \<or> c = 0xFEFF \<or>
     c = 0x1680 \<or> (0x2000 \<le> c \<and> c \<le> 0x200A) \<or> c = 0x202F \<or> c = 0x205F \<or>
     c = 0x3000 \<or> is_line_terminator c"

definition trim :: "jsstring \<Rightarrow> jsstring" where
  "trim s = rev (dropWhile is_js_space (rev (dropWhile is_js_space s)))"

text \<open>\<^verbatim>\<open>s.startsWith(p)\<close> and \<^verbatim>\<open>s.substring(n)\<close> (for \<open>n\<close> beyond the end the
  result is the empty string, which is what \<open>drop\<close> gives).\<close>

definition startsWith :: "jsstring \<Rightarrow> jsstring \<Rightarrow> bool" where
  "startsWith s p \<longleftrightarrow> take (length p) s = p"

definition substring :: "jsstring \<Rightarrow> nat \<Rightarrow> jsstring" where
  "substring s n = drop n s"

text \<open>\<^verbatim>\<open>s.split('\n')\<close>: the pieces between the newlines, empty pieces kept.\<close>

fun split_nl :: "jsstring \<Rightarrow> jsstring list" where
  "split_nl [] = [[]]"
| "split_nl (c # cs) =
     (if c = nl then [] # split_nl cs
      else (case split_nl cs of b # bs \<Rightarrow> (c # b) # bs | [] \<Rightarrow> [[c]]))"

text \<open>\<^verbatim>\<open>s.split('\n\n')\<close>: the separator is looked for from left to right, and the search
  resumes after each occurrence, so three newlines in a row are one separator followed by a
  newline that stays in the next piece.\<close>

fun split_nlnl :: "jsstring \<Rightarrow> jsstring list" where
  "split_nlnl (c # d # cs) =
     (if c = nl \<and> d = nl then [] # split_nlnl cs
      else (case split_nlnl (d # cs) of b # bs \<Rightarrow> (c # b) # bs | [] \<Rightarrow> [[c]]))"
| "split_nlnl [c] = [[c]]"
| "split_nlnl [] = [[]]"

section \<open>The inline passes of renderReport\<close>

text \<open>
  \<^verbatim>\<open>report.replace(/\*\*(.*?)\*\*/g, '<strong class="...">$1</strong>')\<close>
  \<^verbatim>\<open>      .replace(/\*(.*?)\*/g, '<em>$1</em>')\<close>

  A match attempt at a position reads the opening delimiter and then runs the lazy
  \<^verbatim>\<open>(.*?)\<close>: at each step the closing delimiter is tried first, and only when it is not
  there one more code unit is consumed, which must not be a line terminator.
  \<open>strong_close\<close> and \<open>em_close\<close> are that loop after the opening delimiter; they
  return the captured group and the text after the match.
\<close>

fun strong_close :: "jsstring \<Rightarrow> (jsstring \<times> jsstring) option" where
  "strong_close (c # d # cs) =
     (if c = star \<and> d = star then Some ([], cs)
      else if is_line_terminator c then None
      else map_option (\<lambda>(x, r). (c # x, r)) (strong_close (d # cs)))"
| "strong_close [c] = None"
| "strong_close [] = None"

fun match_strong :: "jsstring \<Rightarrow> (jsstring \<times> jsstring) option" where
  "match_strong (c # d # cs) = (if c = star \<and> d = star then strong_close cs else None)"
| "match_strong [c] = None"
| "match_strong [] = None"

fun em_close :: "jsstring \<Rightarrow> (jsstring \<times> jsstring) option" where
  "em_close (c # cs) =
     (if c = star then Some ([], cs)
      else if is_line_terminator c then None
      else map_option (\<lambda>(x, r). (c # x, r)) (em_close cs))"
| "em_close [] = None"

fun match_em :: "jsstring \<Rightarrow> (jsstring \<times> jsstring) option" where
  "match_em (c # cs) = (if c = star then em_close cs else None)"
| "match_em [] = None"

definition STRONG_OPEN :: jsstring where
  \<open>STRONG_OPEN = js ''<strong class="font-semibold text-gray-900 dark:text-gray-100">''\<close>

definition STRONG_CLOSE :: jsstring where
  \<open>STRONG_CLOSE = js ''</strong>''\<close>

definition EM_OPEN :: jsstring where
  \<open>EM_OPEN = js ''<em>''\<close>

definition EM_CLOSE :: jsstring where
  \<open>EM_CLOSE = js ''</em>''\<close>

lemma strong_close_shorter: "strong_close s = Some (x, r) \<Longrightarrow> length r < length s"
  by (induction s arbitrary: x rule: strong_close.induct) (auto split: if_splits)

lemma match_strong_shorter: "match_strong s = Some (x, r) \<Longrightarrow> length r < length s"
  by (cases s rule: match_strong.cases) (auto split: if_splits dest: strong_close_shorter)

lemma em_close_shorter: "em_close s = Some (x, r) \<Longrightarrow> length r < length s"
  by (induction s arbitrary: x rule: em_close.induct) (auto split: if_splits)

lemma match_em_shorter: "match_em s = Some (x, r) \<Longrightarrow> length r < length s"
  by (cases s rule: match_em.cases) (auto split: if_splits dest: em_close_shorter)

text \<open>The global replace: the leftmost match is replaced and the scan resumes after it;
  where no match starts, the code unit is copied and the scan moves one position on.
  Neither pattern matches the empty string, so the scan always advances.\<close>

function replace_strong :: "jsstring \<Rightarrow> jsstring" where
  "replace_strong [] = []"
| "replace_strong (c # cs) =
     (case match_strong (c # cs) of
        Some (x, r) \<Rightarrow> STRONG_OPEN @ x @ STRONG_CLOSE @ replace_strong r
      | None \<Rightarrow> c # replace_strong cs)"
  by pat_completeness auto
termination
  by (relation "measure length") (auto simp del: match_strong.simps dest: match_strong_shorter)

function replace_em :: "jsstring \<Rightarrow> jsstring" where
  "replace_em [] = []"
| "replace_em (c # cs) =
     (case match_em (c # cs) of
        Some (x, r) \<Rightarrow> EM_OPEN @ x @ EM_CLOSE @ replace_em r
      | None \<Rightarrow> c # replace_em cs)"
  by pat_completeness auto
termination
  by (relation "measure length") (auto simp del: match_em.simps dest: match_em_shorter)

definition inline_format :: "jsstring \<Rightarrow> jsstring" where
  "inline_format report = replace_em (replace_strong report)"

section \<open>The block pass of renderReport\<close>

text \<open>
  \<^verbatim>\<open>html.split('\n\n').map(block => { ... }).join('')\<close>: each piece becomes one element,
  chosen by the first test that succeeds. \<^verbatim>\<open>block.match(/^- /)\<close> has no \<^verbatim>\<open>m\<close> flag, so it
  looks at the start of the block only. \<open>render_block\<close> is the callback as written.
\<close>

definition H3_OPEN :: jsstring where
  \<open>H3_OPEN = js ''<h3 class="text-xl font-bold mb-2 mt-4 text-gray-100">''\<close>

definition H2_OPEN :: jsstring where
  \<open>H2_OPEN = js ''<h2 class="text-2xl font-bold mb-3 mt-5 text-white border-b border-zinc-700 pb-2">''\<close>

definition H1_OPEN :: jsstring where
  \<open>H1_OPEN = js ''<h1 class="text-3xl font-bold mb-4 mt-6 text-white">''\<close>

definition LI_OPEN :: jsstring where
  \<open>LI_OPEN = js ''<li class="mb-1">''\<close>

definition UL_OPEN :: jsstring where
  \<open>UL_OPEN = js ''<ul class="list-disc pl-6 space-y-1 my-4">''\<close>

definition P_OPEN :: jsstring where
  \<open>P_OPEN = js ''<p class="mb-4 text-gray-300 leading-relaxed">''\<close>

definition render_item :: "jsstring \<Rightarrow> jsstring" where
  "render_item item = LI_OPEN @ substring item 2 @ js ''</li>''"

definition render_block :: "jsstring \<Rightarrow> jsstring" where
  "render_block block =
     (if startsWith block (js ''### '') then H3_OPEN @ substring block 4 @ js ''</h3>''
      else if startsWith block (js ''## '') then H2_OPEN @ substring block 3 @ js ''</h2>''
      else if startsWith block (js ''# '') then H1_OPEN @ substring block 2 @ js ''</h1>''
      else if startsWith block (js ''- '') then
        UL_OPEN @ concat (map render_item (split_nl block)) @ js ''</ul>''
      else P_OPEN @ block @ js ''</p>'')"

definition report_html :: "jsstring \<Rightarrow> jsstring" where
  "report_html report = concat (map render_block (split_nlnl (inline_format report)))"

text \<open>
  The same callback read as a document tree: which element each branch produces and the
  text it puts inside. \<open>block_html\<close> writes a node back as the markup of the source, and
  \<open>render_block_classify\<close> (in the section on blocks) shows that the two readings agree on
  every block.
\<close>

datatype block = Heading nat jsstring | BulletList "jsstring list" | Paragraph jsstring

definition classify :: "jsstring \<Rightarrow> block" where
  "classify block =
     (if startsWith block (js ''### '') then Heading 3 (substring block 4)
      else if startsWith block (js ''## '') then Heading 2 (substring block 3)
      else if startsWith block (js ''# '') then Heading 1 (substring block 2)
      else if startsWith block (js ''- '') then
        BulletList (map (\<lambda>item. substring item 2) (split_nl block))
      else Paragraph block)"

fun block_html :: "block \<Rightarrow> jsstring" where
  "block_html (Heading n t) =
     (if n = 3 then H3_OPEN @ t @ js ''</h3>''
      else if n = 2 then H2_OPEN @ t @ js ''</h2>''
      else H1_OPEN @ t @ js ''</h1>'')"
| "block_html (BulletList items) =
     UL_OPEN @ concat (map (\<lambda>t. LI_OPEN @ t @ js ''</li>'') items) @ js ''</ul>''"
| "block_html (Paragraph t) = P_OPEN @ t @ js ''</p>''"

definition report_blocks :: "jsstring \<Rightarrow> block list" where
  "report_blocks report = map classify (split_nlnl (inline_format report))"

subsection \<open>Copying, stated for comparison\<close>

text \<open>
  Two notions that are not in the script, used to say what its passes keep.
  \<open>wrapped delim op cl r h\<close>: the text \<open>h\<close> is the text \<open>r\<close> in which some spans
  \<open>delim x delim\<close> have become \<open>op x cl\<close>, with \<open>x\<close> kept as it is, and in which every
  other code unit is copied, in order. \<open>join_with\<close> is \<^verbatim>\<open>Array.prototype.join\<close> with a
  separator, the inverse of \<^verbatim>\<open>split\<close>.
\<close>

inductive wrapped :: "jsstring \<Rightarrow> jsstring \<Rightarrow> jsstring \<Rightarrow> jsstring \<Rightarrow> jsstring \<Rightarrow> bool"
  for delim :: jsstring and op :: jsstring and cl :: jsstring
where
  wrapped_Nil: "wrapped delim op cl [] []"
| wrapped_Copy: "wrapped delim op cl r h \<Longrightarrow>
     wrapped delim op cl (c # r) (c # h)"
| wrapped_Wrap: "wrapped delim op cl r h \<Longrightarrow>
     wrapped delim op cl (delim @ x @ delim @ r) (op @ x @ cl @ h)"


section \<open>The page\<close>

text \<open>The \<^verbatim>\<open>icons\<close> table.\<close>

definition icon_loader :: jsstring where
  \<open>icon_loader = js ''<svg class="animate-spin h-5 w-5" xmlns="http://www.w3.org/2000/svg" fill="none" viewBox="0 0 24 24"><circle class="opacity-25" cx="12" cy="12" r="10" stroke="currentColor" stroke-width="4"></circle><path class="opacity-75" fill="currentColor" d="M4 12a8 8 0 018-8V0C5.373 0 0 5.373 0 12h4zm2 5.291A7.962 7.962 0 014 12H0c0 3.042 1.135 5.824 3 7.938l3-2.647z"></path></svg>''\<close>

definition icon_check :: jsstring where
  \<open>icon_check = js ''<svg class="h-5 w-5" viewBox="0 0 20 20" fill="currentColor"><path fill-rule="evenodd" d="M10 18a8 8 0 100-16 8 8 0 000 16zm3.707-9.293a1 1 0 00-1.414-1.414L9 10.586 7.707 9.293a1 1 0 00-1.414 1.414l2 2a1 1 0 001.414 0l4-4z" clip-rule="evenodd" /></svg>''\<close>

definition icon_error :: jsstring where
  \<open>icon_error = js ''<svg class="h-5 w-5" viewBox="0 0 20 20" fill="currentColor"><path fill-rule="evenodd" d="M10 18a8 8 0 100-16 8 8 0 000 16zM8.707 7.293a1 1 0 00-1.414 1.414L8.586 10l-1.293 1.293a1 1 0 101.414 1.414L10 11.414l1.293 1.293a1 1 0 001.414-1.414L11.414 10l1.293-1.293a1 1 0 00-1.414-1.414L10 8.586 8.707 7.293z" clip-rule="evenodd" /></svg>''\<close>

definition icon_dot :: jsstring where
  \<open>icon_dot = js ''<svg class="h-3 w-3" viewBox="0 0 20 20" fill="currentColor"><circle cx="10" cy="10" r="8" /></svg>''\<close>

definition icon_airplane :: jsstring where
  \<open>icon_airplane = js ''<svg class="h-5 w-5" viewBox="0 0 20 20" fill="currentColor"><path d="M10.894 2.553a1 1 0 00-1.788 0l-7 14a1 1 0 001.169 1.409l5-1.429A1 1 0 009 15.571V11a1 1 0 112 0v4.571a1 1 0 00.725.962l5 1.428a1 1 0 001.17-1.408l-7-14z" /></svg>''\<close>

text \<open>
  The elements the script reads and writes, with the properties it touches. The status line
  may hold a \<^verbatim>\<open>span\<close> (the coloured dot that \<^verbatim>\<open>setStatusColor\<close> looks for); assigning
  \<^verbatim>\<open>textContent\<close> replaces all children of the element, so it removes that span.

  The subtopic panel is kept as the rows of \<^verbatim>\<open>#subtopics-ul\<close> (\<open>None\<close>: no such element in
  the document). This reads the markup that \<^verbatim>\<open>renderSubTopicList\<close> assigns to \<^verbatim>\<open>innerHTML\<close>
  for topics that are plain text: one \<^verbatim>\<open>li\<close> per subtopic, holding a \<^verbatim>\<open>span\<close> with the topic and
  a \<^verbatim>\<open>div\<close> with the status. \<open>div_html\<close> is the markup inside that \<^verbatim>\<open>div\<close>.
  \<open>emitted\<close> lists the \<^verbatim>\<open>socket.emit\<close> calls made so far, each with its event name and topic.
\<close>

record row =
  li_class :: jsstring
  span_text :: jsstring
  div_class :: jsstring
  div_html :: jsstring

record page =
  topicInput_value :: jsstring
  topicInput_disabled :: bool
  startResearchBtn_disabled :: bool
  startResearchBtn_cursor_wait :: bool
  startResearchBtn_html :: jsstring
  errorMessage_text :: jsstring
  statusMessage_text :: jsstring
  statusMessage_dot :: "jsstring option"
  subtopics_ul :: "row list option"
  reportContainer_html :: jsstring
  reportContainer_display :: jsstring
  currentTopic :: jsstring
  emitted :: "(jsstring \<times> jsstring) list"

definition setUIState :: "bool \<Rightarrow> page \<Rightarrow> page" where
  "setUIState isResearching s =
     s\<lparr>topicInput_disabled := isResearching,
       startResearchBtn_disabled := (isResearching \<or> trim (topicInput_value s) = []),
       startResearchBtn_cursor_wait := isResearching,
       startResearchBtn_html :=
         (if isResearching then icon_loader @ js ''<span>Researching...</span>''
          else icon_airplane @ js ''<span>Start Research</span>'')\<rparr>"

definition resetUI :: "page \<Rightarrow> page" where
  "resetUI s =
     setUIState False
       (s\<lparr>errorMessage_text := [],
          subtopics_ul := None,
          reportContainer_html := [],
          reportContainer_display := js ''none'',
          statusMessage_text := js ''Ready to start your research.'',
          statusMessage_dot := None\<rparr>)"

definition setStatusColor :: "jsstring \<Rightarrow> page \<Rightarrow> page" where
  "setStatusColor cls s =
     (case statusMessage_dot s of
        None \<Rightarrow> s
      | Some _ \<Rightarrow> s\<lparr>statusMessage_dot := Some (js ''inline-block h-2 w-2 rounded-full '' @ cls)\<rparr>)"

subsection \<open>The subtopic list\<close>

definition LI_CLASS :: jsstring where
  "LI_CLASS = js ''flex items-center justify-between p-3 bg-white dark:bg-zinc-800 rounded-lg border-l-4 ''"

definition DIV_CLASS :: jsstring where
  "DIV_CLASS = js ''flex items-center gap-2 text-sm font-medium ''"

definition new_row :: "jsstring \<Rightarrow> row" where
  \<open>new_row topic =
     \<lparr>li_class = LI_CLASS @ js ''border-gray-300 dark:border-zinc-600'',
      span_text = topic,
      div_class = DIV_CLASS @ js ''text-gray-500 dark:text-gray-400'',
      div_html = js ''\<newline>                '' @ icon_dot @
                 js ''\<newline>                <span class="capitalize">pending</span>\<newline>              ''\<rparr>\<close>

definition renderSubTopicList :: "jsstring list \<Rightarrow> page \<Rightarrow> page" where
  "renderSubTopicList subTopics s = s\<lparr>subtopics_ul := Some (map new_row subTopics)\<rparr>"

text \<open>
  \<^verbatim>\<open>statusInfo[status]\<close> is a property read on an object literal. It finds the four own
  properties, and through the prototype chain every property of \<^verbatim>\<open>Object.prototype\<close> as
  well: a function, or for \<^verbatim>\<open>__proto__\<close> the prototype object itself, all of them truthy
  and none of them with an \<^verbatim>\<open>icon\<close>, \<^verbatim>\<open>text\<close>, \<^verbatim>\<open>color\<close> or \<^verbatim>\<open>border\<close> property. For any other
  key the read gives \<^verbatim>\<open>undefined\<close>.
\<close>

record status_entry =
  icon :: jsstring
  label :: jsstring
  color :: jsstring
  border :: jsstring

datatype lookup = Own status_entry | Inherited | Undefined

definition object_prototype_keys :: "jsstring list" where
  "object_prototype_keys =
     [js ''constructor'', js ''hasOwnProperty'', js ''isPrototypeOf'',
      js ''propertyIsEnumerable'', js ''toLocaleString'', js ''toString'', js ''valueOf'',
      js ''__proto__'', js ''__defineGetter__'', js ''__defineSetter__'',
      js ''__lookupGetter__'', js ''__lookupSetter__'']"

definition statusInfo :: "jsstring \<Rightarrow> lookup" where
  "statusInfo status =
     (if status = js ''pending'' then
        Own \<lparr>icon = icon_dot, label = js ''pending'',
             color = js ''text-gray-500 dark:text-gray-400'',
             border = js ''border-gray-300 dark:border-zinc-600''\<rparr>
      else if status = js ''in-progress'' then
        Own \<lparr>icon = icon_loader, label = js ''in progress'',
             color = js ''text-sky-500 dark:text-sky-400'',
             border = js ''border-sky-500''\<rparr>
      else if status = js ''complete'' then
        Own \<lparr>icon = icon_check, label = js ''complete'',
             color = js ''text-emerald-500 dark:text-emerald-400'',
             border = js ''border-emerald-500''\<rparr>
      else if status = js ''error'' then
        Own \<lparr>icon = icon_error, label = js ''error'',
             color = js ''text-rose-500 dark:text-rose-400'',
             border = js ''border-rose-500''\<rparr>
      else if status \<in> set object_prototype_keys then Inherited
      else Undefined)"

text \<open>\<^verbatim>\<open>${currentStatus.border}\<close> and its siblings inside a template literal: a missing
  property is \<^verbatim>\<open>undefined\<close>, which the template writes as the text "undefined".\<close>

fun template_of :: "(status_entry \<Rightarrow> jsstring) \<Rightarrow> lookup \<Rightarrow> jsstring" where
  "template_of field (Own e) = field e"
| "template_of field Inherited = js ''undefined''"
| "template_of field Undefined = js ''undefined''"

definition patch_row :: "lookup \<Rightarrow> row \<Rightarrow> row" where
  \<open>patch_row currentStatus listItem =
     listItem\<lparr>li_class := LI_CLASS @ template_of border currentStatus,
              div_class := DIV_CLASS @ template_of color currentStatus,
              div_html := template_of icon currentStatus @ js ''<span class="capitalize">'' @
                          template_of label currentStatus @ js ''</span>''\<rparr>\<close>

text \<open>\<^verbatim>\<open>ul.children[index]\<close> for an integer index is the element at that position, and
  \<^verbatim>\<open>undefined\<close> for a negative index or one past the end.\<close>

definition updateSubTopicStatus :: "int \<Rightarrow> jsstring \<Rightarrow> page \<Rightarrow> page" where
  "updateSubTopicStatus index status s =
     (case subtopics_ul s of
        None \<Rightarrow> s
      | Some rows \<Rightarrow>
          if index < 0 \<or> int (length rows) \<le> index then s
          else (case statusInfo status of
                  Undefined \<Rightarrow> s
                | currentStatus \<Rightarrow>
                    s\<lparr>subtopics_ul :=
                        Some (rows[nat index := patch_row currentStatus (rows ! nat index)])\<rparr>))"

subsection \<open>The report\<close>

definition renderReport :: "jsstring \<Rightarrow> page \<Rightarrow> page" where
  \<open>renderReport report s =
     s\<lparr>reportContainer_html :=
         js ''\<newline>      <h2 class="text-3xl font-extrabold text-white">Final Report: <span class="text-sky-400">'' @
         currentTopic s @
         js ''</span></h2>\<newline>      <div class="mt-6 p-6 sm:p-8 bg-zinc-900/80 rounded-xl shadow-2xl border border-zinc-800 backdrop-blur-sm">\<newline>        '' @
         report_html report @
         js ''\<newline>      </div>\<newline>    '',
       reportContainer_display := js ''block''\<rparr>\<close>

subsection \<open>Starting a research, and the socket events\<close>

definition startResearch :: "page \<Rightarrow> page" where
  "startResearch s =
     (let topic = topicInput_value s in
      if trim topic = [] then s\<lparr>errorMessage_text := js ''Please enter a research topic.''\<rparr>
      else
        (let s1 = setUIState True (resetUI (s\<lparr>currentTopic := topic\<rparr>))
         in s1\<lparr>emitted := emitted s1 @ [(js ''start_research'', topic)]\<rparr>))"

datatype event =
    Status_update jsstring
  | Sub_topics_generated "jsstring list"
  | Sub_topic_update int jsstring
  | Final_report jsstring
  | Research_error jsstring

fun on_event :: "event \<Rightarrow> page \<Rightarrow> page" where
  "on_event (Status_update message) s =
     s\<lparr>statusMessage_text := message, statusMessage_dot := None\<rparr>"
| "on_event (Sub_topics_generated sub_topics) s =
     renderSubTopicList sub_topics (setStatusColor (js ''bg-sky-500'') s)"
| "on_event (Sub_topic_update index status) s = updateSubTopicStatus index status s"
| "on_event (Final_report report) s =
     setUIState False (setStatusColor (js ''bg-emerald-500'') (renderReport report s))"
| "on_event (Research_error err) s =
     setUIState False
       (setStatusColor (js ''bg-rose-500'')
          (s\<lparr>errorMessage_text := err,
             statusMessage_text := js ''An error occurred.'',
             statusMessage_dot := None\<rparr>))"

subsection \<open>Concrete pages and observers\<close>

text \<open>The page right after the script has run on load (it calls \<^verbatim>\<open>setUIState(false)\<close>
  once), with every element empty: a concrete starting point for the examples.\<close>

definition loaded_page :: page where
  "loaded_page =
     setUIState False
       \<lparr>topicInput_value = [], topicInput_disabled = False,
        startResearchBtn_disabled = False, startResearchBtn_cursor_wait = False,
        startResearchBtn_html = [], errorMessage_text = [],
        statusMessage_text = js ''Ready to start your research.'', statusMessage_dot = None,
        subtopics_ul = None, reportContainer_html = [], reportContainer_display = js ''none'',
        currentTopic = [], emitted = []\<rparr>"


text \<open>The two events that end a research.\<close>

fun is_terminal :: "event \<Rightarrow> bool" where
  "is_terminal (Final_report r) = True"
| "is_terminal (Research_error m) = True"
| "is_terminal _ = False"

section \<open>Frame lemmas\<close>

lemma setStatusColor_frame:
  "topicInput_value (setStatusColor c s) = topicInput_value s"
  "subtopics_ul (setStatusColor c s) = subtopics_ul s"
  "emitted (setStatusColor c s) = emitted s"
  "errorMessage_text (setStatusColor c s) = errorMessage_text s"
  "statusMessage_text (setStatusColor c s) = statusMessage_text s"
  "reportContainer_html (setStatusColor c s) = reportContainer_html s"
  "reportContainer_display (setStatusColor c s) = reportContainer_display s"
  "currentTopic (setStatusColor c s) = currentTopic s"
  by (simp_all add: setStatusColor_def split: option.splits)

lemma updateSubTopicStatus_frame:
  "topicInput_value (updateSubTopicStatus i st s) = topicInput_value s"
  "emitted (updateSubTopicStatus i st s) = emitted s"
  by (simp_all add: updateSubTopicStatus_def split: option.splits lookup.splits)

lemma on_event_topicInput_value: "topicInput_value (on_event e s) = topicInput_value s"
  by (cases e)
     (simp_all add: setStatusColor_frame updateSubTopicStatus_frame renderSubTopicList_def
        setUIState_def renderReport_def)

lemma fold_on_event_topicInput_value:
  "topicInput_value (fold on_event evs s) = topicInput_value s"
  by (induction evs arbitrary: s) (simp_all add: on_event_topicInput_value)

lemma startResearch_topicInput_value: "topicInput_value (startResearch s) = topicInput_value s"
  by (simp add: startResearch_def Let_def setUIState_def resetUI_def)

lemma trim_ocean: "trim (js ''Ocean currents'') = js ''Ocean currents''"
  by (simp add: trim_def js_def is_js_space_def is_line_terminator_def)

lemma trim_blank: "trim (js '' \<newline> '') = []"
  by (simp add: trim_def js_def is_js_space_def is_line_terminator_def)

lemma loaded_page_simps:
  "subtopics_ul loaded_page = None"
  "emitted loaded_page = []"
  "topicInput_value loaded_page = []"
  "statusMessage_text loaded_page = js ''Ready to start your research.''"
  by (simp_all add: loaded_page_def setUIState_def)

section \<open>Submitting a topic\<close>

text \<open>
  Claim C7. A call of \<^verbatim>\<open>startResearch\<close> emits exactly one \<^verbatim>\<open>start_research\<close> message, carrying
  the topic of the input field, when that topic is not empty after trimming, and emits nothing
  otherwise. With a blank topic the only change to the page is the validation message in the
  error line: the script keeps no phase variable, and everything a phase could be read from
  (busy state, panels, status line, current topic) is left as it was.
\<close>

theorem startResearch_emits_iff_nonblank:
  "emitted (startResearch s) =
     emitted s @ (if trim (topicInput_value s) = [] then []
                  else [(js ''start_research'', topicInput_value s)]) \<and>
   (trim (topicInput_value s) = [] \<longrightarrow>
      startResearch s = s\<lparr>errorMessage_text := js ''Please enter a research topic.''\<rparr>)"
  by (simp add: startResearch_def Let_def setUIState_def resetUI_def)

theorem startResearch_emits_iff_nonblank_witness:
  "emitted (startResearch (loaded_page\<lparr>topicInput_value := js ''Ocean currents''\<rparr>)) =
     [(js ''start_research'', js ''Ocean currents'')] \<and>
   startResearch (loaded_page\<lparr>topicInput_value := js '' \<newline> ''\<rparr>) =
     loaded_page\<lparr>topicInput_value := js '' \<newline> '',
                 errorMessage_text := js ''Please enter a research topic.''\<rparr> \<and>
   emitted (startResearch (loaded_page\<lparr>topicInput_value := js '' \<newline> ''\<rparr>)) = []"
proof -
  let ?ocean = "loaded_page\<lparr>topicInput_value := js ''Ocean currents''\<rparr>"
  let ?blank = "loaded_page\<lparr>topicInput_value := js '' \<newline> ''\<rparr>"
  have ocean: "trim (topicInput_value ?ocean) \<noteq> []"
    by (simp add: trim_ocean) (simp add: js_def)
  have blank: "trim (topicInput_value ?blank) = []"
    by (simp add: trim_blank)
  have "emitted (startResearch ?ocean) = [(js ''start_research'', js ''Ocean currents'')]"
    using startResearch_emits_iff_nonblank [of ?ocean] ocean
    by (simp add: loaded_page_simps)
  moreover have "startResearch ?blank = ?blank\<lparr>errorMessage_text := js ''Please enter a research topic.''\<rparr>"
    using startResearch_emits_iff_nonblank [of ?blank] blank by blast
  moreover have "emitted (startResearch ?blank) = []"
    using startResearch_emits_iff_nonblank [of ?blank] blank
    by (simp add: loaded_page_simps)
  ultimately show ?thesis by simp
qed

section \<open>Status updates of the subtopic list\<close>







lemma statusInfo_values:
  "statusInfo (js ''constructor'') = Inherited"
  "statusInfo (js ''pending'') =
     Own \<lparr>icon = icon_dot, label = js ''pending'',
          color = js ''text-gray-500 dark:text-gray-400'',
          border = js ''border-gray-300 dark:border-zinc-600''\<rparr>"
  "statusInfo (js ''complete'') =
     Own \<lparr>icon = icon_check, label = js ''complete'',
          color = js ''text-emerald-500 dark:text-emerald-400'',
          border = js ''border-emerald-500''\<rparr>"
  by (simp_all add: statusInfo_def object_prototype_keys_def) (simp_all add: js_def)

lemma tides_rows:
  "subtopics_ul (renderSubTopicList [js ''Tides''] loaded_page) = Some [new_row (js ''Tides'')]"
  by (simp add: renderSubTopicList_def)




text \<open>
  Claim C5 at a status string that is none of the four: \<^verbatim>\<open>statusInfo['constructor']\<close> is the
  inherited \<^verbatim>\<open>Object\<close> function, which passes the test \<^verbatim>\<open>if (currentStatus)\<close>, so the entry
  is rewritten with the text "undefined" for its border, colour, icon and label.
\<close>

theorem updateSubTopicStatus_constructor_rewrites_entry:
  \<open>subtopics_ul
     (updateSubTopicStatus 0 (js ''constructor'') (renderSubTopicList [js ''Tides''] loaded_page)) =
   Some [\<lparr>li_class = LI_CLASS @ js ''undefined'', span_text = js ''Tides'',
          div_class = DIV_CLASS @ js ''undefined'',
          div_html = js ''undefined<span class="capitalize">undefined</span>''\<rparr>] \<and>
   updateSubTopicStatus 0 (js ''constructor'') (renderSubTopicList [js ''Tides''] loaded_page)
     \<noteq> renderSubTopicList [js ''Tides''] loaded_page\<close>
proof -
  let ?s = "renderSubTopicList [js ''Tides''] loaded_page"
  have after: \<open>subtopics_ul (updateSubTopicStatus 0 (js ''constructor'') ?s) =
     Some [\<lparr>li_class = LI_CLASS @ js ''undefined'', span_text = js ''Tides'',
            div_class = DIV_CLASS @ js ''undefined'',
            div_html = js ''undefined<span class="capitalize">undefined</span>''\<rparr>]\<close>
    by (simp add: updateSubTopicStatus_def tides_rows statusInfo_values patch_row_def new_row_def)
       (simp add: js_def)
  have "subtopics_ul (updateSubTopicStatus 0 (js ''constructor'') ?s) \<noteq> subtopics_ul ?s"
    unfolding after tides_rows by (simp add: new_row_def) (simp add: js_def)
  then have "updateSubTopicStatus 0 (js ''constructor'') ?s \<noteq> ?s"
    by auto
  with after show ?thesis by simp
qed

section \<open>The inline passes: what a match is, and lines\<close>

lemma star_not_terminator: "\<not> is_line_terminator star"
  by (simp add: is_line_terminator_def)

lemma em_close_SomeD:
  "em_close s = Some (x, r) \<Longrightarrow>
     s = x @ star # r \<and> (\<forall>c\<in>set x. \<not> is_line_terminator c) \<and> star \<notin> set x"
  by (induction s arbitrary: x rule: em_close.induct) (auto split: if_splits)

lemma match_em_SomeD:
  "match_em s = Some (x, r) \<Longrightarrow>
     s = star # x @ star # r \<and> (\<forall>c\<in>set x. \<not> is_line_terminator c)"
  by (cases s rule: match_em.cases) (auto split: if_splits dest: em_close_SomeD)

lemma strong_close_SomeD:
  "strong_close s = Some (x, r) \<Longrightarrow>
     s = x @ star # star # r \<and> (\<forall>c\<in>set x. \<not> is_line_terminator c)"
  by (induction s arbitrary: x rule: strong_close.induct) (auto split: if_splits)

lemma match_strong_SomeD:
  "match_strong s = Some (x, r) \<Longrightarrow>
     s = star # star # x @ star # star # r \<and> (\<forall>c\<in>set x. \<not> is_line_terminator c)"
  by (cases s rule: match_strong.cases) (auto split: if_splits dest: strong_close_SomeD)

lemma em_close_append_terminator:
  "is_line_terminator c \<Longrightarrow>
     em_close (t @ c # u) = map_option (\<lambda>(x, r). (x, r @ c # u)) (em_close t)"
  by (induction t rule: em_close.induct)
     (auto simp add: star_not_terminator option.map_comp comp_def split_def)

lemma match_em_append_terminator:
  "is_line_terminator c \<Longrightarrow>
     match_em (t @ c # u) = map_option (\<lambda>(x, r). (x, r @ c # u)) (match_em t)"
  by (cases t rule: match_em.cases)
     (auto simp add: em_close_append_terminator star_not_terminator)

lemma strong_close_append_terminator:
  "is_line_terminator c \<Longrightarrow>
     strong_close (t @ c # u) = map_option (\<lambda>(x, r). (x, r @ c # u)) (strong_close t)"
proof (induction t rule: strong_close.induct)
  case (1 a b cs)
  then show ?case
    by (auto simp add: option.map_comp comp_def split_def)
next
  case (2 a)
  then show ?case
    by (cases u) (auto simp add: star_not_terminator)
next
  case 3
  then show ?case
    by (cases u) (auto simp add: star_not_terminator)
qed

lemma match_strong_append_terminator:
  "is_line_terminator c \<Longrightarrow>
     match_strong (t @ c # u) = map_option (\<lambda>(x, r). (x, r @ c # u)) (match_strong t)"
proof (cases t rule: match_strong.cases)
  case (1 a b cs)
  assume "is_line_terminator c"
  with 1 show ?thesis by (simp add: strong_close_append_terminator)
next
  case (2 a)
  assume "is_line_terminator c"
  with 2 show ?thesis by (auto simp add: star_not_terminator)
next
  case 3
  assume "is_line_terminator c"
  with 3 show ?thesis by (cases u) (auto simp add: star_not_terminator)
qed

lemma replace_em_terminator:
  assumes "is_line_terminator c"
  shows "replace_em (t @ c # u) = replace_em t @ c # replace_em u"
proof (induction t rule: replace_em.induct)
  case 1
  from assms have "match_em (c # u) = None"
    by (auto simp add: star_not_terminator)
  then show ?case by simp
next
  case (2 a cs)
  show ?case
  proof (cases "match_em (a # cs)")
    case None
    then have "match_em ((a # cs) @ c # u) = None"
      by (simp only: match_em_append_terminator[OF assms] option.map)
    with None 2 show ?thesis by simp
  next
    case (Some p)
    obtain x r where p: "p = (x, r)" by (cases p)
    from Some p have "match_em ((a # cs) @ c # u) = Some (x, r @ c # u)"
      by (simp only: match_em_append_terminator[OF assms]) simp
    with Some p 2 show ?thesis by (simp del: match_em.simps)
  qed
qed

lemma replace_strong_terminator:
  assumes "is_line_terminator c"
  shows "replace_strong (t @ c # u) = replace_strong t @ c # replace_strong u"
proof (induction t rule: replace_strong.induct)
  case 1
  from assms have "match_strong (c # u) = None"
    by (cases u) (auto simp add: star_not_terminator)
  then show ?case by simp
next
  case (2 a cs)
  show ?case
  proof (cases "match_strong (a # cs)")
    case None
    then have "match_strong ((a # cs) @ c # u) = None"
      by (simp only: match_strong_append_terminator[OF assms] option.map)
    with None 2 show ?thesis by simp
  next
    case (Some p)
    obtain x r where p: "p = (x, r)" by (cases p)
    from Some p have "match_strong ((a # cs) @ c # u) = Some (x, r @ c # u)"
      by (simp only: match_strong_append_terminator[OF assms]) simp
    with Some p 2 show ?thesis by (simp del: match_strong.simps)
  qed
qed

lemma inline_format_terminator:
  "is_line_terminator c \<Longrightarrow>
     inline_format (t @ c # u) = inline_format t @ c # inline_format u"
  by (simp add: inline_format_def replace_strong_terminator replace_em_terminator)

section \<open>Text without a pair of stars on a line\<close>

lemma replace_em_unchanged:
  assumes "\<forall>xs ys zs. t = xs @ star # ys @ star # zs \<longrightarrow> (\<exists>c\<in>set ys. is_line_terminator c)"
  shows "replace_em t = t"
  using assms
proof (induction t)
  case Nil
  then show ?case by simp
next
  case (Cons a cs)
  have none: "match_em (a # cs) = None"
  proof (cases "match_em (a # cs)")
    case None
    then show ?thesis .
  next
    case (Some p)
    obtain x r where "p = (x, r)" by (cases p)
    with Some have "a # cs = [] @ star # x @ star # r" and "\<forall>c\<in>set x. \<not> is_line_terminator c"
      using match_em_SomeD[of "a # cs" x r] by simp_all
    with Cons.prems show ?thesis by blast
  qed
  have "\<forall>xs ys zs. cs = xs @ star # ys @ star # zs \<longrightarrow> (\<exists>c\<in>set ys. is_line_terminator c)"
  proof (intro allI impI)
    fix xs ys zs
    assume "cs = xs @ star # ys @ star # zs"
    then have "a # cs = (a # xs) @ star # ys @ star # zs" by simp
    with Cons.prems show "\<exists>c\<in>set ys. is_line_terminator c" by blast
  qed
  then have "replace_em cs = cs" by (rule Cons.IH)
  with none show ?case by (simp del: match_em.simps)
qed

lemma replace_strong_unchanged:
  assumes "\<forall>xs ys zs. t = xs @ star # ys @ star # zs \<longrightarrow> (\<exists>c\<in>set ys. is_line_terminator c)"
  shows "replace_strong t = t"
  using assms
proof (induction t)
  case Nil
  then show ?case by simp
next
  case (Cons a cs)
  have none: "match_strong (a # cs) = None"
  proof (cases "match_strong (a # cs)")
    case None
    then show ?thesis .
  next
    case (Some p)
    obtain x r where "p = (x, r)" by (cases p)
    with Some have "a # cs = [] @ star # [] @ star # (x @ star # star # r)"
      using match_strong_SomeD[of "a # cs" x r] by simp
    with Cons.prems have "\<exists>c\<in>set ([]::jsstring). is_line_terminator c" by blast
    then show ?thesis by simp
  qed
  have "\<forall>xs ys zs. cs = xs @ star # ys @ star # zs \<longrightarrow> (\<exists>c\<in>set ys. is_line_terminator c)"
  proof (intro allI impI)
    fix xs ys zs
    assume "cs = xs @ star # ys @ star # zs"
    then have "a # cs = (a # xs) @ star # ys @ star # zs" by simp
    with Cons.prems show "\<exists>c\<in>set ys. is_line_terminator c" by blast
  qed
  then have "replace_strong cs = cs" by (rule Cons.IH)
  with none show ?case by (simp del: match_strong.simps)
qed

lemma inline_format_no_star_pair:
  "(\<forall>xs ys zs. t = xs @ star # ys @ star # zs \<longrightarrow> (\<exists>c\<in>set ys. is_line_terminator c)) \<Longrightarrow>
     inline_format t = t"
  by (simp add: inline_format_def replace_strong_unchanged replace_em_unchanged)

section \<open>Blank lines\<close>

lemma split_nlnl_nonempty: "split_nlnl v \<noteq> []"
  by (induction v rule: split_nlnl.induct) (simp_all split: list.splits)

lemma split_nlnl_trailing:
  "v = [] \<or> last v \<noteq> nl \<Longrightarrow> split_nlnl (v @ [nl, nl]) = split_nlnl v @ [[]]"
proof (induction v rule: split_nlnl.induct)
  case (1 c d cs)
  show ?case
  proof (cases "c = nl \<and> d = nl")
    case True
    with 1(3) have "cs = [] \<or> last cs \<noteq> nl" by (auto split: if_splits)
    with True 1(1) show ?thesis by simp
  next
    case False
    from 1(3) have "d # cs = [] \<or> last (d # cs) \<noteq> nl" by simp
    with False 1(2) have "split_nlnl ((d # cs) @ [nl, nl]) = split_nlnl (d # cs) @ [[]]" by blast
    moreover obtain b bs where "split_nlnl (d # cs) = b # bs"
      using split_nlnl_nonempty[of "d # cs"] by (cases "split_nlnl (d # cs)") auto
    ultimately show ?thesis using False by (cases "c = nl"; cases "d = nl"; simp)
  qed
next
  case (2 c)
  then show ?case by simp
next
  case 3
  then show ?case by simp
qed


lemma replace_em_last:
  "t \<noteq> [] \<Longrightarrow> last t \<noteq> nl \<Longrightarrow> replace_em t \<noteq> [] \<and> last (replace_em t) \<noteq> nl"
proof (induction t rule: replace_em.induct)
  case 1
  then show ?case by simp
next
  case (2 a cs)
  have close: "EM_CLOSE \<noteq> [] \<and> last EM_CLOSE \<noteq> nl"
    by (simp add: EM_CLOSE_def js_def)
  show ?case
  proof (cases "match_em (a # cs)")
    case None
    show ?thesis
    proof (cases "cs = []")
      case True
      with None 2(4) show ?thesis by (simp del: match_em.simps)
    next
      case False
      with 2(4) have "last cs \<noteq> nl" by simp
      with False None 2(1) have "replace_em cs \<noteq> [] \<and> last (replace_em cs) \<noteq> nl" by blast
      with None show ?thesis by (simp del: match_em.simps)
    qed
  next
    case (Some p)
    obtain x r where p: "p = (x, r)" by (cases p)
    with Some have shape: "a # cs = star # x @ star # r"
      using match_em_SomeD[of "a # cs" x r] by simp
    show ?thesis
    proof (cases "r = []")
      case True
      with Some p close show ?thesis by (simp del: match_em.simps)
    next
      case False
      with shape 2(4) have "last r \<noteq> nl" by simp
      with False Some p 2(2) have "replace_em r \<noteq> [] \<and> last (replace_em r) \<noteq> nl" by blast
      with Some p show ?thesis by (simp del: match_em.simps)
    qed
  qed
qed

lemma replace_strong_last:
  "t \<noteq> [] \<Longrightarrow> last t \<noteq> nl \<Longrightarrow> replace_strong t \<noteq> [] \<and> last (replace_strong t) \<noteq> nl"
proof (induction t rule: replace_strong.induct)
  case 1
  then show ?case by simp
next
  case (2 a cs)
  have close: "STRONG_CLOSE \<noteq> [] \<and> last STRONG_CLOSE \<noteq> nl"
    by (simp add: STRONG_CLOSE_def js_def)
  show ?case
  proof (cases "match_strong (a # cs)")
    case None
    show ?thesis
    proof (cases "cs = []")
      case True
      with None 2(4) show ?thesis by (simp del: match_strong.simps)
    next
      case False
      with 2(4) have "last cs \<noteq> nl" by simp
      with False None 2(1) have "replace_strong cs \<noteq> [] \<and> last (replace_strong cs) \<noteq> nl" by blast
      with None show ?thesis by (simp del: match_strong.simps)
    qed
  next
    case (Some p)
    obtain x r where p: "p = (x, r)" by (cases p)
    with Some have shape: "a # cs = star # star # x @ star # star # r"
      using match_strong_SomeD[of "a # cs" x r] by simp
    show ?thesis
    proof (cases "r = []")
      case True
      with Some p close show ?thesis by (simp del: match_strong.simps)
    next
      case False
      with shape 2(4) have "last r \<noteq> nl" by simp
      with False Some p 2(2) have "replace_strong r \<noteq> [] \<and> last (replace_strong r) \<noteq> nl" by blast
      with Some p show ?thesis by (simp del: match_strong.simps)
    qed
  qed
qed

lemma inline_format_last:
  "t = [] \<or> last t \<noteq> nl \<Longrightarrow> inline_format t = [] \<or> last (inline_format t) \<noteq> nl"
proof (cases "t = []")
  case True
  then show ?thesis by (simp add: inline_format_def)
next
  case False
  assume "t = [] \<or> last t \<noteq> nl"
  with False have "last t \<noteq> nl" by simp
  with False have "replace_strong t \<noteq> [] \<and> last (replace_strong t) \<noteq> nl"
    by (rule replace_strong_last)
  then have "replace_em (replace_strong t) \<noteq> [] \<and> last (replace_em (replace_strong t)) \<noteq> nl"
    by (intro replace_em_last) simp_all
  then show ?thesis by (simp add: inline_format_def)
qed

lemma nl_terminator: "is_line_terminator nl"
  by (simp add: is_line_terminator_def)

lemma inline_format_Nil: "inline_format [] = []"
  by (simp add: inline_format_def)

lemma report_blocks_leading:
  "report_blocks (nl # nl # r) = Paragraph [] # report_blocks r"
proof -
  have "inline_format (nl # nl # r) = nl # nl # inline_format r"
    using inline_format_terminator[OF nl_terminator, of "[]" "nl # r"]
      inline_format_terminator[OF nl_terminator, of "[]" r]
    by (simp add: inline_format_Nil)
  then show ?thesis
    by (simp add: report_blocks_def classify_def startsWith_def js_def)
qed

lemma report_blocks_trailing:
  assumes "r = [] \<or> last r \<noteq> nl"
  shows "report_blocks (r @ [nl, nl]) = report_blocks r @ [Paragraph []]"
proof -
  have "inline_format (r @ [nl, nl]) = inline_format r @ [nl, nl]"
    using inline_format_terminator[OF nl_terminator, of r "[nl]"]
      inline_format_terminator[OF nl_terminator, of "[]" "[]"]
    by (simp add: inline_format_Nil)
  moreover have "split_nlnl (inline_format r @ [nl, nl]) = split_nlnl (inline_format r) @ [[]]"
    using assms by (intro split_nlnl_trailing inline_format_last)
  ultimately show ?thesis
    by (simp add: report_blocks_def classify_def startsWith_def js_def)
qed

section \<open>The terminal events\<close>



text \<open>
  Claim C10. After \<^verbatim>\<open>final_report\<close> or \<^verbatim>\<open>research_error\<close>, on any page, the topic input is
  enabled, the button has lost its busy look, and the button is disabled exactly when the
  topic input is blank. For a research that was started by \<^verbatim>\<open>startResearch\<close> with a
  non-blank topic, whatever events arrived in between, the topic is still in the input, so
  the button is enabled and a further \<^verbatim>\<open>startResearch\<close> emits its message.
\<close>

theorem terminal_event_reenables_submit:
  assumes "is_terminal e"
  shows "\<not> topicInput_disabled (on_event e s) \<and>
     \<not> startResearchBtn_cursor_wait (on_event e s) \<and>
     startResearchBtn_html (on_event e s) = icon_airplane @ js ''<span>Start Research</span>'' \<and>
     (startResearchBtn_disabled (on_event e s) \<longleftrightarrow> trim (topicInput_value s) = []) \<and>
     (trim (topicInput_value s0) \<noteq> [] \<longrightarrow>
        \<not> topicInput_disabled (on_event e (fold on_event evs (startResearch s0))) \<and>
        \<not> startResearchBtn_disabled (on_event e (fold on_event evs (startResearch s0))) \<and>
        emitted (startResearch (on_event e (fold on_event evs (startResearch s0)))) =
          emitted (on_event e (fold on_event evs (startResearch s0))) @
            [(js ''start_research'', topicInput_value s0)])"
proof -
  have ui: "\<not> topicInput_disabled (on_event e s) \<and>
     \<not> startResearchBtn_cursor_wait (on_event e s) \<and>
     startResearchBtn_html (on_event e s) = icon_airplane @ js ''<span>Start Research</span>'' \<and>
     (startResearchBtn_disabled (on_event e s) \<longleftrightarrow> trim (topicInput_value s) = [])" for s
    using assms
    by (cases e) (simp_all add: setUIState_def setStatusColor_frame renderReport_def)
  have session: "\<not> topicInput_disabled (on_event e (fold on_event evs (startResearch s0))) \<and>
        \<not> startResearchBtn_disabled (on_event e (fold on_event evs (startResearch s0))) \<and>
        emitted (startResearch (on_event e (fold on_event evs (startResearch s0)))) =
          emitted (on_event e (fold on_event evs (startResearch s0))) @
            [(js ''start_research'', topicInput_value s0)]"
    if ne: "trim (topicInput_value s0) \<noteq> []"
  proof -
    define t where "t = fold on_event evs (startResearch s0)"
    have tv: "topicInput_value t = topicInput_value s0"
      by (simp add: t_def fold_on_event_topicInput_value startResearch_topicInput_value)
    have tv': "topicInput_value (on_event e t) = topicInput_value s0"
      by (simp add: on_event_topicInput_value tv)
    have "emitted (startResearch (on_event e t)) =
            emitted (on_event e t) @ [(js ''start_research'', topicInput_value s0)]"
      using ne tv' by (simp add: startResearch_def Let_def setUIState_def resetUI_def)
    with ui[of t] ne tv show ?thesis
      by (simp add: t_def)
  qed
  from ui session show ?thesis by blast
qed

theorem terminal_event_reenables_submit_witness:
  "\<not> startResearchBtn_disabled
      (on_event (Final_report (js ''Done.''))
        (fold on_event
           [Sub_topics_generated [js ''Tides''], Sub_topic_update 0 (js ''complete'')]
           (startResearch (loaded_page\<lparr>topicInput_value := js ''Ocean currents''\<rparr>)))) \<and>
   \<not> topicInput_disabled (on_event (Research_error (js ''timeout'')) loaded_page) \<and>
   startResearchBtn_disabled (on_event (Research_error (js ''timeout'')) loaded_page)"
proof -
  let ?ocean = "loaded_page\<lparr>topicInput_value := js ''Ocean currents''\<rparr>"
  have ocean: "trim (topicInput_value ?ocean) \<noteq> []"
    by (simp add: trim_ocean) (simp add: js_def)
  have blank: "trim (topicInput_value loaded_page) = []"
    by (simp add: loaded_page_simps trim_def)
  have t1: "is_terminal (Final_report (js ''Done.''))" by simp
  have t2: "is_terminal (Research_error (js ''timeout''))" by simp
  from terminal_event_reenables_submit[OF t1, of loaded_page ?ocean
      "[Sub_topics_generated [js ''Tides''], Sub_topic_update 0 (js ''complete'')]"] ocean
  have a: "\<not> startResearchBtn_disabled
      (on_event (Final_report (js ''Done.''))
        (fold on_event
           [Sub_topics_generated [js ''Tides''], Sub_topic_update 0 (js ''complete'')]
           (startResearch ?ocean)))" by blast
  from terminal_event_reenables_submit[OF t2, of loaded_page loaded_page "[]"] blank
  have b: "\<not> topicInput_disabled (on_event (Research_error (js ''timeout'')) loaded_page) \<and>
   startResearchBtn_disabled (on_event (Research_error (js ''timeout'')) loaded_page)" by blast
  from a b show ?thesis by blast
qed

section \<open>Blocks\<close>

text \<open>The two readings of the callback, as markup and as a node, agree.\<close>

lemma render_block_classify: "render_block b = block_html (classify b)"
proof -
  have "render_item = (\<lambda>x. LI_OPEN @ substring x 2 @ js ''</li>'')"
    by (rule ext) (simp add: render_item_def)
  then show ?thesis
    by (simp add: render_block_def classify_def comp_def)
qed

lemma report_html_blocks: "report_html report = concat (map block_html (report_blocks report))"
proof -
  have "render_block = (\<lambda>b. block_html (classify b))"
    by (rule ext) (rule render_block_classify)
  then show ?thesis
    by (simp add: report_html_def report_blocks_def comp_def)
qed

lemma startsWith_Nil: "startsWith b []"
  by (simp add: startsWith_def)

lemma startsWith_Cons:
  "startsWith b (c # p) \<longleftrightarrow> (case b of [] \<Rightarrow> False | x # t \<Rightarrow> x = c \<and> startsWith t p)"
  by (cases b) (auto simp add: startsWith_def)

lemma startsWith_dash:
  assumes "startsWith b (js ''- '')"
  shows "\<not> startsWith b (js ''### '')" "\<not> startsWith b (js ''## '')" "\<not> startsWith b (js ''# '')"
  using assms by (auto simp add: startsWith_Cons startsWith_Nil js_def split: list.splits)

lemma split_nlnl_append:
  "u = [] \<or> last u \<noteq> nl \<Longrightarrow> split_nlnl (u @ nl # nl # v) = split_nlnl u @ split_nlnl v"
proof (induction u rule: split_nlnl.induct)
  case (1 c d cs)
  show ?case
  proof (cases "c = nl \<and> d = nl")
    case True
    with 1(3) have "cs = [] \<or> last cs \<noteq> nl" by (auto split: if_splits)
    with True 1(1) show ?thesis by simp
  next
    case False
    from 1(3) have "d # cs = [] \<or> last (d # cs) \<noteq> nl" by simp
    with False 1(2)
    have "split_nlnl ((d # cs) @ nl # nl # v) = split_nlnl (d # cs) @ split_nlnl v" by blast
    moreover obtain b bs where "split_nlnl (d # cs) = b # bs"
      using split_nlnl_nonempty[of "d # cs"] by (cases "split_nlnl (d # cs)") auto
    ultimately show ?thesis using False by (cases "c = nl"; cases "d = nl"; simp)
  qed
next
  case (2 c)
  then show ?case by simp
next
  case 3
  then show ?case by simp
qed

lemma report_blocks_append:
  assumes "a = [] \<or> last a \<noteq> nl"
  shows "report_blocks (a @ nl # nl # b) = report_blocks a @ report_blocks b"
proof -
  have "inline_format (a @ nl # nl # b) = inline_format a @ nl # nl # inline_format b"
    using inline_format_terminator[OF nl_terminator, of a "nl # b"]
      inline_format_terminator[OF nl_terminator, of "[]" b]
    by (simp add: inline_format_Nil)
  moreover have "split_nlnl (inline_format a @ nl # nl # inline_format b) =
      split_nlnl (inline_format a) @ split_nlnl (inline_format b)"
    using assms by (intro split_nlnl_append inline_format_last)
  ultimately show ?thesis
    by (simp add: report_blocks_def)
qed

text \<open>
  Claim C2, as the code has it. In a block that starts with "- ", every line of the block is
  one list item, and every item is its line without the line's first two code units: the
  callback takes \<^verbatim>\<open>item.substring(2)\<close> of each line and never looks at what the two code
  units are. A line that starts with "- " so loses exactly that marker.
\<close>

theorem bullet_block_items:
  assumes "startsWith b (js ''- '')"
  shows "classify b = BulletList (map (drop 2) (split_nl b)) \<and>
     render_block b =
       UL_OPEN @ concat (map (\<lambda>line. LI_OPEN @ drop 2 line @ js ''</li>'') (split_nl b)) @
       js ''</ul>'' \<and>
     (\<forall>rest. drop 2 (js ''- '' @ rest) = rest)"
proof -
  have "render_item = (\<lambda>x. LI_OPEN @ drop 2 x @ js ''</li>'')"
    by (rule ext) (simp add: render_item_def substring_def)
  moreover have "(\<lambda>item. substring item 2) = drop 2"
    by (rule ext) (simp add: substring_def)
  moreover have "\<forall>rest. drop 2 (js ''- '' @ rest) = rest"
    by (simp add: js_def)
  ultimately show ?thesis using assms startsWith_dash[OF assms]
    by (simp add: classify_def render_block_def)
qed

theorem bullet_block_items_witness:
  "classify (js ''- tides\<newline>+ waves'') = BulletList [js ''tides'', js ''waves'']"
proof -
  have "startsWith (js ''- tides\<newline>+ waves'') (js ''- '')"
    by (simp add: startsWith_def js_def)
  from bullet_block_items[OF this] show ?thesis
    by (simp add: js_def)
qed

text \<open>Claim C2 as stated fails: a line "foo" inside a bullet block is emitted as "o", not
  as "foo".\<close>

theorem bullet_line_without_dash_loses_two:
  "report_blocks (js ''- a\<newline>foo'') = [BulletList [js ''a'', js ''o'']] \<and>
   report_blocks (js ''- a\<newline>foo'') \<noteq> [BulletList [js ''a'', js ''foo'']]"
  by (simp add: report_blocks_def classify_def startsWith_def substring_def inline_format_def
      js_def is_line_terminator_def)

text \<open>
  Claim C9. The two examples of the specification; the classification by prefix, in the
  order "### ", "## ", "# ", "- ", with 4, 3, 2 and 2 code units removed, and a paragraph
  with the whole block otherwise; and the blank lines: the texts on the two sides of a blank
  line are rendered independently (as long as the left one does not end in a newline, which
  would make three newlines in a row), the empty text is one empty paragraph, so an empty
  block at the start or at the end stays as an empty paragraph.
\<close>

theorem report_blocks_classification:
  "report_blocks (js ''# Title\<newline>\<newline>Body text'') =
     [Heading 1 (js ''Title''), Paragraph (js ''Body text'')] \<and>
   report_blocks (js ''- a\<newline>- b'') = [BulletList [js ''a'', js ''b'']] \<and>
   classify (js ''### '' @ t) = Heading 3 t \<and>
   classify (js ''## '' @ t) = Heading 2 t \<and>
   classify (js ''# '' @ t) = Heading 1 t \<and>
   classify (js ''- '' @ t) = BulletList (map (drop 2) (split_nl (js ''- '' @ t))) \<and>
   (\<not> startsWith b (js ''### '') \<and> \<not> startsWith b (js ''## '') \<and>
    \<not> startsWith b (js ''# '') \<and> \<not> startsWith b (js ''- '') \<longrightarrow>
      classify b = Paragraph b) \<and>
   (a = [] \<or> last a \<noteq> nl \<longrightarrow>
      report_blocks (a @ nl # nl # c) = report_blocks a @ report_blocks c) \<and>
   report_blocks [] = [Paragraph []] \<and>
   report_blocks (nl # nl # r) = Paragraph [] # report_blocks r \<and>
   (r = [] \<or> last r \<noteq> nl \<longrightarrow>
      report_blocks (r @ [nl, nl]) = report_blocks r @ [Paragraph []])"
proof -
  have empty: "report_blocks [] = [Paragraph []]"
    by (simp add: report_blocks_def inline_format_Nil classify_def startsWith_def js_def)
  have ex1: "report_blocks (js ''# Title\<newline>\<newline>Body text'') =
     [Heading 1 (js ''Title''), Paragraph (js ''Body text'')]"
    by (simp add: report_blocks_def classify_def startsWith_def substring_def inline_format_def
        js_def is_line_terminator_def)
  have ex2: "report_blocks (js ''- a\<newline>- b'') = [BulletList [js ''a'', js ''b'']]"
    by (simp add: report_blocks_def classify_def startsWith_def substring_def inline_format_def
        js_def is_line_terminator_def)
  have h3: "classify (js ''### '' @ t) = Heading 3 t"
    by (simp add: classify_def startsWith_def substring_def js_def)
  have h2: "classify (js ''## '' @ t) = Heading 2 t"
    by (simp add: classify_def startsWith_def substring_def js_def)
  have h1: "classify (js ''# '' @ t) = Heading 1 t"
    by (simp add: classify_def startsWith_def substring_def js_def)
  have sub: "(\<lambda>item. substring item 2) = drop 2"
    by (rule ext) (simp add: substring_def)
  have ul: "classify (js ''- '' @ t) = BulletList (map (drop 2) (split_nl (js ''- '' @ t)))"
    by (simp add: classify_def startsWith_def sub) (simp add: js_def)
  have p: "\<not> startsWith b (js ''### '') \<and> \<not> startsWith b (js ''## '') \<and>
    \<not> startsWith b (js ''# '') \<and> \<not> startsWith b (js ''- '') \<longrightarrow> classify b = Paragraph b"
    by (simp add: classify_def)
  from ex1 ex2 h3 h2 h1 ul p report_blocks_append[of a c] empty
    report_blocks_leading[of r] report_blocks_trailing[of r]
  show ?thesis by blast
qed

theorem report_blocks_classification_witness:
  "classify (js ''Body text'') = Paragraph (js ''Body text'') \<and>
   report_blocks (js ''Body text\<newline>\<newline>'') = [Paragraph (js ''Body text''), Paragraph []]"
proof -
  have a: "\<not> startsWith (js ''Body text'') (js ''### '') \<and>
     \<not> startsWith (js ''Body text'') (js ''## '') \<and>
     \<not> startsWith (js ''Body text'') (js ''# '') \<and>
     \<not> startsWith (js ''Body text'') (js ''- '')"
    by (simp add: startsWith_def js_def)
  have b: "js ''Body text'' = [] \<or> last (js ''Body text'') \<noteq> nl"
    by (simp add: js_def)
  have c: "report_blocks (js ''Body text'') = [Paragraph (js ''Body text'')]"
    by (simp add: report_blocks_def classify_def startsWith_def substring_def inline_format_def
        js_def is_line_terminator_def)
  have d: "js ''Body text\<newline>\<newline>'' = js ''Body text'' @ [nl, nl]"
    by (simp add: js_def)
  from report_blocks_classification[of _ "js ''Body text''" _ _ "js ''Body text''"] a b c
  show ?thesis unfolding d by simp
qed

section \<open>A single star with no partner\<close>


















section \<open>What reaches the document\<close>






















end
